theory Spec2Isabelle
  imports Complex_Main "HOL-Library.Log_Nat"
begin

section \<open>Data model of \<^verbatim>\<open>medicine_recommender.py\<close>\<close>

text \<open>
  A medicine is a JSON object. The recommender reads \<^verbatim>\<open>med['name']\<close>,
  \<^verbatim>\<open>medicine.get('uses', [])\<close> and \<^verbatim>\<open>medicine.get('components', [])\<close>; an absent list
  is the empty list, and a record without a name is outside the model. The category and the
  description are carried along and never read by the methods below. Strings are lists of
  8-bit characters, read as the code points 0 to 255.
\<close>

record medicine =
  name :: string
  uses :: "string list"
  components :: "string list"
  category :: "string option"
  description :: "string option"

datatype error = IndexError | KeyError | ValueError | AttributeError

text \<open>What the methods write with \<^verbatim>\<open>print\<close>, one constructor per format string.\<close>

datatype message =
    MsgLoaded nat
  | MsgFileNotFound string
  | MsgInvalidJSON string
  | MsgNoMedicines
  | MsgTrained nat
  | MsgFeatureSpace nat
  | MsgNotTrained
  | MsgNotFound string

text \<open>The outcome of opening and parsing the database file; \<^verbatim>\<open>Json None\<close> is a document
  without the key \<^verbatim>\<open>medicines\<close>.\<close>

datatype db_file = Missing | Malformed | Json "medicine list option"

record tfidf_params =
  lowercase :: bool
  analyzer :: string
  ngram_range :: "nat \<times> nat"
  min_df :: nat
  max_df :: real

text \<open>
  scikit-learn and NumPy are not part of the repository. Their entry points are parameters:
  the vectorizer object \<open>'vz\<close>, the rows \<open>'v\<close> of the feature matrix and the scores \<open>'s\<close> are
  abstract. \<^verbatim>\<open>cosine_similarity(x, M).flatten()\<close> with a one-row \<open>x\<close> is the list of the
  pairwise scores of \<open>x\<close> with the rows of \<open>M\<close>.
\<close>

record ('vz, 'v, 's) sklearn =
  tfidf_vectorizer :: "tfidf_params \<Rightarrow> 'vz"
  fit_transform :: "'vz \<Rightarrow> string list \<Rightarrow> (error + 'v list) \<times> 'vz"
  n_features :: "'v list \<Rightarrow> nat"
  cosine_similarity :: "'v \<Rightarrow> 'v \<Rightarrow> 's"
  argsort :: "'s list \<Rightarrow> nat list"

record ('vz, 'v) recommender =
  database_path :: string
  medicines :: "medicine list"
  vectorizer :: "'vz option"
  feature_vectors :: "'v list option"
  medicine_index_map :: "string \<rightharpoonup> nat"

definition init :: "string \<Rightarrow> ('vz, 'v) recommender" where
  "init path = \<lparr>database_path = path, medicines = [], vectorizer = None,
     feature_vectors = None, medicine_index_map = Map.empty\<rparr>"

subsection \<open>Strings\<close>

text \<open>
  \<^verbatim>\<open>str.lower\<close> on the code points 0 to 255 moves the letters A to Z and the letters
  192 to 222, the multiplication sign 215 apart, up by 32, and leaves the rest. \<^verbatim>\<open>str.strip\<close>
  removes, from both ends, the code points for which \<^verbatim>\<open>str.isspace\<close> holds: 9 to 13, 28 to 32,
  133 (next line) and 160 (no-break space).
\<close>

definition lower_char :: "char \<Rightarrow> char" where
  "lower_char c = (let n = (of_char c :: nat) in
     if (65 \<le> n \<and> n \<le> 90) \<or> (192 \<le> n \<and> n \<le> 222 \<and> n \<noteq> 215)
     then char_of (n + 32) else c)"

definition str_lower :: "string \<Rightarrow> string" where
  "str_lower s = map lower_char s"

definition is_space :: "char \<Rightarrow> bool" where
  "is_space c = (let n = (of_char c :: nat) in
     (9 \<le> n \<and> n \<le> 13) \<or> (28 \<le> n \<and> n \<le> 32) \<or> n = 133 \<or> n = 160)"

definition str_strip :: "string \<Rightarrow> string" where
  "str_strip s = rev (dropWhile is_space (rev (dropWhile is_space s)))"

fun starts_with :: "string \<Rightarrow> string \<Rightarrow> bool" where
  "starts_with [] s = True"
| "starts_with (c # cs) [] = False"
| "starts_with (c # cs) (d # ds) = (c = d \<and> starts_with cs ds)"

text \<open>\<^verbatim>\<open>sub in s\<close> on strings.\<close>

fun str_in :: "string \<Rightarrow> string \<Rightarrow> bool" where
  "str_in sub [] = (sub = [])"
| "str_in sub (c # cs) = (starts_with sub (c # cs) \<or> str_in sub cs)"

fun join_space :: "string list \<Rightarrow> string" where
  "join_space [] = []"
| "join_space [w] = w"
| "join_space (w # ws) = w @ '' '' @ join_space ws"

subsection \<open>The methods\<close>

text \<open>
  A method takes the object and returns the value it returns (or the exception that leaves
  it), what it printed, and the object afterwards.
\<close>

text \<open>The dictionary comprehension over \<^verbatim>\<open>enumerate(self.medicines)\<close>: a later record
  with the same lowercased name overwrites the earlier position.\<close>

fun index_map_from :: "nat \<Rightarrow> medicine list \<Rightarrow> (string \<rightharpoonup> nat) \<Rightarrow> (string \<rightharpoonup> nat)" where
  "index_map_from idx [] m = m"
| "index_map_from idx (med # meds) m =
     index_map_from (Suc idx) meds (m(str_lower (name med) \<mapsto> idx))"

definition load_database ::
  "db_file \<Rightarrow> ('vz, 'v) recommender \<Rightarrow> bool \<times> message list \<times> ('vz, 'v) recommender" where
  "load_database file st =
     (case file of
        Missing \<Rightarrow> (False, [MsgFileNotFound (database_path st)], st)
      | Malformed \<Rightarrow> (False, [MsgInvalidJSON (database_path st)], st)
      | Json data \<Rightarrow>
          (let meds = (case data of None \<Rightarrow> [] | Some ms \<Rightarrow> ms);
               st1 = st\<lparr>medicines := meds\<rparr>;
               st2 = st1\<lparr>medicine_index_map := index_map_from 0 (medicines st1) Map.empty\<rparr>
           in (True, [MsgLoaded (length (medicines st2))], st2)))"

definition prepare_features :: "medicine \<Rightarrow> string" where
  "prepare_features med =
     str_strip (join_space (uses med) @ '' '' @ join_space (components med))"

definition build_vectorizer ::
  "('vz, 'v, 's) sklearn \<Rightarrow> ('vz, 'v) recommender \<Rightarrow> ('vz, 'v) recommender" where
  "build_vectorizer lib st =
     st\<lparr>vectorizer := Some (tfidf_vectorizer lib
        \<lparr>lowercase = True, analyzer = ''word'', ngram_range = (1, 2),
         min_df = 1, max_df = 0.95\<rparr>)\<rparr>"

definition train_model ::
  "('vz, 'v, 's) sklearn \<Rightarrow> ('vz, 'v) recommender \<Rightarrow>
     (error + bool) \<times> message list \<times> ('vz, 'v) recommender" where
  "train_model lib st =
     (if medicines st = [] then (Inr False, [MsgNoMedicines], st)
      else
        let st1 = (if vectorizer st = None then build_vectorizer lib st else st);
            feature_texts = map prepare_features (medicines st1)
        in case vectorizer st1 of
             None \<Rightarrow> (Inl AttributeError, [], st1)
           | Some vz \<Rightarrow>
               (case fit_transform lib vz feature_texts of
                  (Inl e, vz') \<Rightarrow> (Inl e, [], st1\<lparr>vectorizer := Some vz'\<rparr>)
                | (Inr fv, vz') \<Rightarrow>
                    (let st2 = st1\<lparr>vectorizer := Some vz', feature_vectors := Some fv\<rparr>
                     in (Inr True,
                         [MsgTrained (length (medicines st2)), MsgFeatureSpace (n_features lib fv)],
                         st2))))"

text \<open>The fuzzy search loop of \<^verbatim>\<open>find_medicine\<close>.\<close>

fun fuzzy_search :: "string \<Rightarrow> medicine list \<Rightarrow> medicine option" where
  "fuzzy_search name_lower [] = None"
| "fuzzy_search name_lower (med # meds) =
     (if str_in name_lower (str_lower (name med)) then Some med
      else fuzzy_search name_lower meds)"

definition find_medicine ::
  "('vz, 'v) recommender \<Rightarrow> string \<Rightarrow>
     (error + medicine option) \<times> message list \<times> ('vz, 'v) recommender" where
  "find_medicine st nm =
     (let name_lower = str_strip (str_lower nm) in
      case medicine_index_map st name_lower of
        Some idx \<Rightarrow>
          (if idx < length (medicines st) then (Inr (Some (medicines st ! idx)), [], st)
           else (Inl IndexError, [], st))
      | None \<Rightarrow> (Inr (fuzzy_search name_lower (medicines st)), [], st))"

text \<open>The loop that builds \<^verbatim>\<open>recommendations\<close>; \<open>acc\<close> is the list built so far. The
  length test comes after the append, so one entry is appended whatever \<open>top_n\<close> is.\<close>

fun collect ::
  "medicine list \<Rightarrow> 's list \<Rightarrow> bool \<Rightarrow> nat \<Rightarrow> int \<Rightarrow> nat list \<Rightarrow>
     (medicine \<times> 's) list \<Rightarrow> error + (medicine \<times> 's) list" where
  "collect meds sims exclude_self input_idx top_n [] acc = Inr acc"
| "collect meds sims exclude_self input_idx top_n (idx # rest) acc =
     (if exclude_self \<and> idx = input_idx
      then collect meds sims exclude_self input_idx top_n rest acc
      else if \<not> idx < length sims then Inl IndexError
      else if \<not> idx < length meds then Inl IndexError
      else
        let acc' = acc @ [(meds ! idx, sims ! idx)]
        in if top_n \<le> int (length acc') then Inr acc'
           else collect meds sims exclude_self input_idx top_n rest acc')"

definition recommend_similar ::
  "('vz, 'v, 's) sklearn \<Rightarrow> ('vz, 'v) recommender \<Rightarrow> string \<Rightarrow> int \<Rightarrow> bool \<Rightarrow>
     (error + (medicine \<times> 's) list) \<times> message list \<times> ('vz, 'v) recommender" where
  "recommend_similar lib st medicine_name top_n exclude_self =
     (case feature_vectors st of
        None \<Rightarrow> (Inr [], [MsgNotTrained], st)
      | Some fv \<Rightarrow>
          (case find_medicine st medicine_name of
             (Inl e, out, st1) \<Rightarrow> (Inl e, out, st1)
           | (Inr None, out, st1) \<Rightarrow> (Inr [], out @ [MsgNotFound medicine_name], st1)
           | (Inr (Some input_medicine), out, st1) \<Rightarrow>
               (case medicine_index_map st1 (str_lower (name input_medicine)) of
                  None \<Rightarrow> (Inl KeyError, out, st1)
                | Some input_idx \<Rightarrow>
                    (if \<not> input_idx < length fv then (Inl IndexError, out, st1)
                     else
                       let input_vector = fv ! input_idx;
                           similarities = map (cosine_similarity lib input_vector) fv;
                           similar_indices = rev (argsort lib similarities)
                       in (collect (medicines st1) similarities exclude_self input_idx top_n
                             similar_indices [],
                           out, st1)))))"

subsection \<open>Reading an outcome\<close>

definition returned :: "'r \<times> message list \<times> 'st \<Rightarrow> 'r" where
  "returned r = fst r"

definition printed :: "'r \<times> message list \<times> 'st \<Rightarrow> message list" where
  "printed r = fst (snd r)"

definition after :: "'r \<times> message list \<times> 'st \<Rightarrow> 'st" where
  "after r = snd (snd r)"

subsection \<open>States and library contracts\<close>

text \<open>The name index is the one \<^verbatim>\<open>load_database\<close> builds from the current catalogue.\<close>

definition loaded :: "('vz, 'v) recommender \<Rightarrow> bool" where
  "loaded st \<longleftrightarrow> medicine_index_map st = index_map_from 0 (medicines st) Map.empty"

text \<open>The feature matrix has one row for each record of the current catalogue.\<close>

definition trained :: "('vz, 'v) recommender \<Rightarrow> bool" where
  "trained st \<longleftrightarrow> loaded st \<and>
     (case feature_vectors st of None \<Rightarrow> False | Some fv \<Rightarrow> length fv = length (medicines st))"

text \<open>\<^verbatim>\<open>np.argsort\<close> returns the positions of the array, each once, in an order in which
  the values ascend. Nothing is said about the order of equal values: the default kind is not
  a stable sort.\<close>

definition argsort_ok :: "('s::linorder list \<Rightarrow> nat list) \<Rightarrow> bool" where
  "argsort_ok f \<longleftrightarrow>
     (\<forall>xs. distinct (f xs) \<and> set (f xs) = {0..<length xs} \<and> sorted (map ((!) xs) (f xs)))"

text \<open>\<^verbatim>\<open>fit_transform\<close> returns a matrix with one row for each input text.\<close>

definition fit_ok :: "('vz, 'v, 's) sklearn \<Rightarrow> bool" where
  "fit_ok lib \<longleftrightarrow>
     (\<forall>vz texts fv vz'. fit_transform lib vz texts = (Inr fv, vz') \<longrightarrow> length fv = length texts)"

definition lower_names :: "medicine list \<Rightarrow> string list" where
  "lower_names meds = map (\<lambda>med. str_lower (name med)) meds"

text \<open>Scores do not ascend along the list.\<close>

definition descending :: "('a \<times> 's::linorder) list \<Rightarrow> bool" where
  "descending recs \<longleftrightarrow> sorted (rev (map snd recs))"

text \<open>The list the loop of \<^verbatim>\<open>recommend_similar\<close> builds when every position it meets is in
  range: \<open>i\<close> is the position of the query, and at least one entry is kept.\<close>

definition ranking ::
  "('vz, 'v, 's) sklearn \<Rightarrow> medicine list \<Rightarrow> 'v list \<Rightarrow> nat \<Rightarrow> int \<Rightarrow> bool \<Rightarrow> (medicine \<times> 's) list" where
  "ranking lib meds fv i top_n ex =
     (let sims = map (cosine_similarity lib (fv ! i)) fv in
      take (nat (max 1 top_n))
        (map (\<lambda>j. (meds ! j, sims ! j)) (filter (\<lambda>j. \<not> (ex \<and> j = i)) (rev (argsort lib sims)))))"

subsection \<open>A library instance and catalogues to run the methods on\<close>

text \<open>
  A row is the list of the words of a text, the score of two rows is the number of distinct
  words they share, and \<open>argsort\<close> is a stable insertion sort of the positions. This instance
  meets both contracts; it is used where a run of the methods needs some library, and the
  theorems below hold for every library that meets the contracts.
\<close>

fun split_words :: "string \<Rightarrow> string \<Rightarrow> string list" where
  "split_words cur [] = (if cur = [] then [] else [cur])"
| "split_words cur (c # cs) =
     (if c = CHR '' '' then (if cur = [] then split_words [] cs else cur # split_words [] cs)
      else split_words (cur @ [c]) cs)"

definition shared_words :: "string list \<Rightarrow> string list \<Rightarrow> nat" where
  "shared_words x y = length (filter (\<lambda>w. w \<in> set y) (remdups x))"

definition stable_argsort :: "'s::linorder list \<Rightarrow> nat list" where
  "stable_argsort xs = sort_key (\<lambda>i. xs ! i) [0..<length xs]"

definition word_lib :: "(unit, string list, nat) sklearn" where
  "word_lib = \<lparr>tfidf_vectorizer = (\<lambda>params. ()),
     fit_transform = (\<lambda>vz texts. (Inr (map (split_words []) texts), vz)),
     n_features = (\<lambda>fv. length (remdups (concat fv))),
     cosine_similarity = shared_words,
     argsort = stable_argsort\<rparr>"

definition med :: "string \<Rightarrow> string list \<Rightarrow> string list \<Rightarrow> medicine" where
  "med n us cs = \<lparr>name = n, uses = us, components = cs, category = None, description = None\<rparr>"

text \<open>Three records with distinct names; the second and third have the same feature text.\<close>

definition catalogue3 :: "medicine list" where
  "catalogue3 =
     [med ''Aspirin'' [''pain relief'', ''fever''] [''acetylsalicylic acid''],
      med ''Ibuprofen'' [''pain relief'', ''inflammation''] [''ibuprofen''],
      med ''Advil'' [''pain relief'', ''inflammation''] [''ibuprofen'']]"

text \<open>Two records whose names differ only in case.\<close>

definition catalogue_dup :: "medicine list" where
  "catalogue_dup =
     [med ''Aspirin'' [''pain relief''] [''acetylsalicylic acid''],
      med ''ASPIRIN'' [''fever''] [''acetylsalicylic acid'']]"

text \<open>Two records whose names begin with the code points 201 and 233, capital and small
  e with acute accent.\<close>

definition catalogue_latin :: "medicine list" where
  "catalogue_latin =
     [med (CHR 0xC9 # ''clair'') [''pain relief''] [''menthol''],
      med (CHR 0xE9 # ''ther'') [''anaesthesia''] [''diethyl ether'']]"

text \<open>The catalogue position of a record (of its first occurrence).\<close>

fun position :: "medicine list \<Rightarrow> medicine \<Rightarrow> nat" where
  "position [] m = 0"
| "position (x # xs) m = (if x = m then 0 else Suc (position xs m))"

definition run_load_train ::
  "medicine list \<Rightarrow> (unit, string list) recommender" where
  "run_load_train meds =
     after (train_model word_lib (after (load_database (Json (Some meds)) (init ''medicines.json''))))"

section \<open>Similarity scores\<close>

subsection \<open>The formulas, over the reals\<close>

text \<open>
  Modelled from the spec: the vectorizer and the cosine similarity are scikit-learn's and are
  not in the repository. Following sections 4.1 to 4.3 of the specification, a feature vector
  is the list of the weights \<open>tf \<times> idf\<close> of the vocabulary terms, divided by its Euclidean norm
  unless that norm is zero; \<open>idf\<close> is the smoothed inverse document frequency of a term found
  in \<open>df\<close> of \<open>N\<close> documents; the similarity of two stored vectors is their dot product.
\<close>

definition dot :: "real list \<Rightarrow> real list \<Rightarrow> real" where
  "dot a b = sum_list (map (\<lambda>(x, y). x * y) (zip a b))"

definition l2_normalize :: "real list \<Rightarrow> real list" where
  "l2_normalize a = (let n = sqrt (dot a a) in if n = 0 then a else map (\<lambda>x. x / n) a)"




subsection \<open>The formulas, in double precision\<close>

text \<open>
  Modelled from the spec: the same normalisation and dot product, with every arithmetic
  operation rounded as IEEE 754 binary64 arithmetic rounds it (to the nearest double, ties to
  the even significand), since the scores the code returns are Python floats. A double is the
  rational number it stands for; only non-negative values in the normal range occur.
  \<open>binade x\<close> is the exponent \<open>e\<close> with \<open>2 ^ e \<le> x < 2 ^ (e + 1)\<close>. Sums run from left to
  right, starting from zero, as the row normalisation and the sparse product of the library
  accumulate them, and \<open>fl_cosine\<close> normalises both arguments once more before the dot product,
  as \<^verbatim>\<open>cosine_similarity\<close> does.
\<close>

definition pow2 :: "int \<Rightarrow> rat" where
  "pow2 e = (if 0 \<le> e then 2 ^ nat e else 1 / 2 ^ nat (- e))"

definition binade :: "rat \<Rightarrow> int" where
  "binade x = (let (p, q) = quotient_of x; e0 = bitlen p - bitlen q
               in if pow2 e0 \<le> x then e0 else e0 - 1)"

definition round_even :: "rat \<Rightarrow> int" where
  "round_even y = (let f = \<lfloor>y\<rfloor>; r = y - of_int f in
     if r < 1 / 2 then f else if 1 / 2 < r then f + 1 else if even f then f else f + 1)"

definition fl :: "rat \<Rightarrow> rat" where
  "fl x = (if x \<le> 0 then 0
           else let e = binade x - 52 in of_int (round_even (x / pow2 e)) * pow2 e)"

function isqrt :: "int \<Rightarrow> int" where
  "isqrt n = (if n < 2 then (if n < 0 then 0 else n)
              else let r = 2 * isqrt (n div 4) in if (r + 1) * (r + 1) \<le> n then r + 1 else r)"
  by pat_completeness auto
termination
  by (relation "measure nat") auto

declare isqrt.simps [simp del]

definition fl_sqrt :: "rat \<Rightarrow> rat" where
  "fl_sqrt x = (if x \<le> 0 then 0
     else let e = binade x div 2 - 52;
              y = x / pow2 (2 * e);
              m = isqrt \<lfloor>y\<rfloor>;
              t = of_int ((2 * m + 1) * (2 * m + 1));
              k = (if 4 * y < t then m else if t < 4 * y then m + 1
                   else if even m then m else m + 1)
          in of_int k * pow2 e)"







section \<open>Auxiliary facts\<close>

subsection \<open>Strings\<close>

lemma starts_with_iff: "starts_with a b \<longleftrightarrow> (\<exists>s. b = a @ s)"
  by (induction a b rule: starts_with.induct) auto

lemma str_in_iff: "str_in a b \<longleftrightarrow> (\<exists>p s. b = p @ a @ s)"
proof (induction b)
  case Nil
  then show ?case by auto
next
  case (Cons c cs)
  show ?case
  proof
    assume "str_in a (c # cs)"
    then consider "starts_with a (c # cs)" | "str_in a cs" by auto
    then show "\<exists>p s. c # cs = p @ a @ s"
    proof cases
      case 1
      then obtain s where "c # cs = a @ s" by (auto simp: starts_with_iff)
      then have "c # cs = [] @ a @ s" by simp
      then show ?thesis by blast
    next
      case 2
      then obtain p s where "cs = p @ a @ s" using Cons.IH by auto
      then have "c # cs = (c # p) @ a @ s" by simp
      then show ?thesis by blast
    qed
  next
    assume "\<exists>p s. c # cs = p @ a @ s"
    then obtain p s where ps: "c # cs = p @ a @ s" by auto
    show "str_in a (c # cs)"
    proof (cases p)
      case Nil
      then have "starts_with a (c # cs)" using ps by (auto simp: starts_with_iff)
      then show ?thesis by simp
    next
      case (Cons d p')
      then have "cs = p' @ a @ s" using ps by simp
      then have "str_in a cs" using Cons.IH by auto
      then show ?thesis by simp
    qed
  qed
qed

lemma str_in_empty: "str_in [] b"
  by (cases b) auto

lemma lower_char_space: "is_space c \<Longrightarrow> lower_char c = c"
  by (auto simp: is_space_def lower_char_def Let_def)

lemma str_lower_latin: "str_lower (CHR 0xC9 # ''CLAIR'' @ [CHR 0xD7, CHR 0xDF]) =
    CHR 0xE9 # ''clair'' @ [CHR 0xD7, CHR 0xDF]"
  by code_simp

lemma str_strip_latin: "str_strip (CHR 0xA0 # '' Aspirin'' @ [CHR 0x85, CHR 0x09]) = ''Aspirin''"
  by code_simp

lemma strip_lower_blank:
  assumes "\<forall>c\<in>set s. is_space c"
  shows "str_strip (str_lower s) = []"
proof -
  have low: "str_lower s = s" using assms
    by (simp add: str_lower_def lower_char_space map_idI)
  have d: "dropWhile is_space s = []" using assms by simp
  have "str_strip s = []" unfolding str_strip_def d by simp
  then show ?thesis by (simp only: low)
qed

lemma index_map_from_notin:
  "s \<notin> set (lower_names meds) \<Longrightarrow> index_map_from k meds m s = m s"
  by (induction meds arbitrary: k m) (auto simp: lower_names_def)

lemma index_map_from_in:
  "s \<in> set (lower_names meds) \<Longrightarrow>
   \<exists>i<length meds. index_map_from k meds m s = Some (k + i) \<and> str_lower (name (meds ! i)) = s"
proof (induction meds arbitrary: k m)
  case Nil
  then show ?case by (simp add: lower_names_def)
next
  case (Cons a meds)
  show ?case
  proof (cases "s \<in> set (lower_names meds)")
    case True
    from Cons.IH[OF True, of "Suc k" "m(str_lower (name a) \<mapsto> k)"]
    obtain i where "i < length meds"
      "index_map_from (Suc k) meds (m(str_lower (name a) \<mapsto> k)) s = Some (Suc k + i)"
      "str_lower (name (meds ! i)) = s" by (simp del: fun_upd_apply) blast
    then have "Suc i < length (a # meds) \<and> index_map_from k (a # meds) m s = Some (k + Suc i)
       \<and> str_lower (name ((a # meds) ! Suc i)) = s" by simp
    then show ?thesis by blast
  next
    case False
    then have "str_lower (name a) = s" using Cons.prems by (auto simp: lower_names_def)
    then have "0 < length (a # meds) \<and> index_map_from k (a # meds) m s = Some (k + 0)
       \<and> str_lower (name ((a # meds) ! 0)) = s"
      using False by (simp add: index_map_from_notin)
    then show ?thesis by blast
  qed
qed

lemma index_map_from_distinct:
  assumes "distinct (lower_names meds)" "i < length meds"
  shows "index_map_from 0 meds m (str_lower (name (meds ! i))) = Some i"
proof -
  have "str_lower (name (meds ! i)) \<in> set (lower_names meds)"
    using assms(2) by (auto simp: lower_names_def)
  from index_map_from_in[OF this, of 0 m] obtain j where j: "j < length meds"
    "index_map_from 0 meds m (str_lower (name (meds ! i))) = Some j"
    "str_lower (name (meds ! j)) = str_lower (name (meds ! i))" by auto
  have "lower_names meds ! j = lower_names meds ! i"
    using j assms(2) by (simp add: lower_names_def)
  moreover have "j < length (lower_names meds)" "i < length (lower_names meds)"
    using j(1) assms(2) by (simp_all add: lower_names_def)
  ultimately have "j = i" using assms(1)
    by (simp add: nth_eq_iff_index_eq)
  then show ?thesis using j(2) by simp
qed

lemma fuzzy_search_None:
  "fuzzy_search q meds = None \<longleftrightarrow> (\<forall>m\<in>set meds. \<not> str_in q (str_lower (name m)))"
  by (induction meds) auto

lemma fuzzy_search_Some:
  "fuzzy_search q meds = Some m \<Longrightarrow>
   \<exists>i<length meds. meds ! i = m \<and> str_in q (str_lower (name m)) \<and>
     (\<forall>j<i. \<not> str_in q (str_lower (name (meds ! j))))"
proof (induction meds)
  case Nil
  then show ?case by simp
next
  case (Cons a meds)
  show ?case
  proof (cases "str_in q (str_lower (name a))")
    case True
    then have "a = m" using Cons.prems by simp
    then have "0 < length (a # meds) \<and> (a # meds) ! 0 = m \<and> str_in q (str_lower (name m)) \<and>
       (\<forall>j<0. \<not> str_in q (str_lower (name ((a # meds) ! j))))" using True by simp
    then show ?thesis by blast
  next
    case False
    then have "fuzzy_search q meds = Some m" using Cons.prems by simp
    from Cons.IH[OF this] obtain i where i: "i < length meds" "meds ! i = m"
      "str_in q (str_lower (name m))" "\<forall>j<i. \<not> str_in q (str_lower (name (meds ! j)))" by auto
    have "\<forall>j<Suc i. \<not> str_in q (str_lower (name ((a # meds) ! j)))"
      using False i(4) by (auto simp: less_Suc_eq_0_disj)
    then have "Suc i < length (a # meds) \<and> (a # meds) ! Suc i = m \<and> str_in q (str_lower (name m)) \<and>
       (\<forall>j<Suc i. \<not> str_in q (str_lower (name ((a # meds) ! j))))" using i by simp
    then show ?thesis by blast
  qed
qed

lemma argsort_ok_stable: "argsort_ok (stable_argsort :: 's::linorder list \<Rightarrow> nat list)"
  by (auto simp: argsort_ok_def stable_argsort_def)

lemma fit_ok_word_lib: "fit_ok word_lib"
  by (auto simp: fit_ok_def word_lib_def)

lemma loaded_load_database:
  "load_database file st = (True, out, st') \<Longrightarrow> loaded st'"
  by (auto simp: load_database_def loaded_def Let_def split: db_file.splits)

lemma fit_okD:
  "fit_ok lib \<Longrightarrow> fit_transform lib vz texts = (Inr fv, vz') \<Longrightarrow> length fv = length texts"
  unfolding fit_ok_def by blast

lemma trained_train_model:
  assumes "fit_ok lib" "loaded st" "train_model lib st = (Inr True, out, st')"
  shows "trained st'"
  using assms(2,3)
  by (auto simp: train_model_def trained_def loaded_def build_vectorizer_def Let_def
      dest!: fit_okD[OF assms(1)]
      split: if_splits option.splits prod.splits sum.splits)

subsection \<open>The recommendation loop\<close>

lemma collect_take:
  assumes "\<forall>i\<in>set xs. i < length sims \<and> i < length meds"
  shows "collect meds sims ex inp top_n xs acc =
     Inr (acc @ take (nat (max 1 (top_n - int (length acc))))
        (map (\<lambda>i. (meds ! i, sims ! i)) (filter (\<lambda>i. \<not> (ex \<and> i = inp)) xs)))"
  using assms
proof (induction xs arbitrary: acc)
  case Nil
  then show ?case by simp
next
  case (Cons idx rest)
  show ?case
  proof (cases "ex \<and> idx = inp")
    case True
    then show ?thesis using Cons by simp
  next
    case False
    have inr: "idx < length sims" "idx < length meds" using Cons.prems by auto
    show ?thesis
    proof (cases "top_n \<le> int (length acc) + 1")
      case True
      then have "nat (max 1 (top_n - int (length acc))) = Suc 0" by simp
      with False inr True show ?thesis by (auto simp add: Let_def)
    next
      case stop: False
      then have k: "nat (max 1 (top_n - int (length acc))) = Suc (nat (max 1 (top_n - (1 + int (length acc)))))"
        by simp
      have ih: "collect meds sims ex inp top_n rest (acc @ [(meds ! idx, sims ! idx)]) =
        Inr ((acc @ [(meds ! idx, sims ! idx)]) @ take (nat (max 1 (top_n - int (length (acc @ [(meds ! idx, sims ! idx)])))))
        (map (\<lambda>i. (meds ! i, sims ! i)) (filter (\<lambda>i. \<not> (ex \<and> i = inp)) rest)))"
        using Cons.IH[of "acc @ [(meds ! idx, sims ! idx)]"] Cons.prems by simp
      have eq: "top_n - int (length (acc @ [(meds ! idx, sims ! idx)])) = top_n - int (length acc) - 1" by simp
      show ?thesis using False inr stop unfolding k
        by (auto simp add: Let_def ih eq simp del: max.absorb1 max.absorb2 max.absorb3 max.absorb4)
    qed
  qed
qed

lemma find_medicine_state: "after (find_medicine st nm) = st" "printed (find_medicine st nm) = []"
  by (auto simp: find_medicine_def after_def printed_def Let_def split: option.splits)

lemma find_medicine_member:
  assumes "returned (find_medicine st nm) = Inr (Some m)"
  shows "m \<in> set (medicines st)"
  using assms
  by (auto simp: find_medicine_def returned_def Let_def
      dest!: fuzzy_search_Some split: option.splits if_splits)

lemma loaded_index_of_member:
  assumes "loaded st" "m \<in> set (medicines st)"
  shows "\<exists>i<length (medicines st). medicine_index_map st (str_lower (name m)) = Some i \<and>
           str_lower (name (medicines st ! i)) = str_lower (name m)"
proof -
  have "str_lower (name m) \<in> set (lower_names (medicines st))"
    using assms(2) by (auto simp: lower_names_def)
  from index_map_from_in[OF this, of 0 Map.empty] show ?thesis
    using assms(1) by (simp add: loaded_def)
qed

lemma argsort_okD:
  assumes "argsort_ok f"
  shows "distinct (f xs)" "set (f xs) = {0..<length xs}" "sorted (map ((!) xs) (f xs))"
  using assms unfolding argsort_ok_def by blast+

lemma recommend_trained:
  assumes "trained st" "argsort_ok (argsort lib)"
    and "returned (find_medicine st nm) = Inr (Some m)"
  shows "\<exists>fv i. feature_vectors st = Some fv \<and> length fv = length (medicines st) \<and>
           i < length (medicines st) \<and>
           medicine_index_map st (str_lower (name m)) = Some i \<and>
           str_lower (name (medicines st ! i)) = str_lower (name m) \<and>
           recommend_similar lib st nm top_n ex =
             (Inr (ranking lib (medicines st) fv i top_n ex), [], st)"
proof -
  from assms(1) obtain fv where fv: "feature_vectors st = Some fv"
    "length fv = length (medicines st)" and ld: "loaded st"
    by (auto simp: trained_def split: option.splits)
  have mem: "m \<in> set (medicines st)" using assms(3) by (rule find_medicine_member)
  from loaded_index_of_member[OF ld mem] obtain i where i: "i < length (medicines st)"
    "medicine_index_map st (str_lower (name m)) = Some i"
    "str_lower (name (medicines st ! i)) = str_lower (name m)" by blast
  have fm: "find_medicine st nm = (Inr (Some m), [], st)"
    using assms(3) find_medicine_state[of st nm]
    by (cases "find_medicine st nm") (simp add: returned_def after_def printed_def)
  let ?sims = "map (cosine_similarity lib (fv ! i)) fv"
  have rng: "\<forall>j\<in>set (rev (argsort lib ?sims)). j < length ?sims \<and> j < length (medicines st)"
    using argsort_okD(2)[OF assms(2), of ?sims] fv(2) by simp
  have "recommend_similar lib st nm top_n ex =
     (Inr (ranking lib (medicines st) fv i top_n ex), [], st)"
    using fv i fm collect_take[OF rng, of ex i top_n "[]"]
    by (simp add: recommend_similar_def ranking_def Let_def)
  with fv i show ?thesis by blast
qed

lemma sorted_rev_filter_take:
  assumes "sorted (map f xs)"
  shows "sorted (rev (map f (take k (filter P (rev xs)))))"
proof -
  have "sorted_wrt (\<lambda>a b. f b \<le> f a) (rev xs)"
    using assms by (simp add: sorted_wrt_rev sorted_map)
  then have "sorted_wrt (\<lambda>a b. f b \<le> f a) (filter P (rev xs))"
    by (rule sorted_wrt_filter)
  then have "sorted_wrt (\<lambda>a b. f b \<le> f a) (take k (filter P (rev xs)))"
    by (rule sorted_wrt_take)
  then show ?thesis by (simp add: sorted_wrt_rev sorted_wrt_map)
qed

lemma descending_ranking:
  assumes "argsort_ok (argsort lib)"
  shows "descending (ranking lib meds fv i top_n ex)"
proof -
  let ?sims = "map (cosine_similarity lib (fv ! i)) fv"
  let ?k = "nat (max 1 top_n)"
  let ?P = "\<lambda>j. \<not> (ex \<and> j = i)"
  have "sorted (map ((!) ?sims) (argsort lib ?sims))" by (rule argsort_okD(3)[OF assms])
  then have "sorted (rev (map ((!) ?sims) (take ?k (filter ?P (rev (argsort lib ?sims))))))"
    by (rule sorted_rev_filter_take)
  moreover have "map snd (ranking lib meds fv i top_n ex) =
      map ((!) ?sims) (take ?k (filter ?P (rev (argsort lib ?sims))))"
    by (simp add: ranking_def Let_def take_map o_def del: max.absorb1 max.absorb2 max.absorb3 max.absorb4)
  ultimately show ?thesis by (simp add: descending_def)
qed

lemma length_filter_other:
  assumes "distinct xs" "set xs = {0..<n}" "i < n"
  shows "length (filter (\<lambda>j. j \<noteq> i) xs) = n - 1"
proof -
  have "length (filter (\<lambda>j. j \<noteq> i) xs) = card ({j. j \<noteq> i} \<inter> set xs)"
    using assms(1) by (rule distinct_length_filter)
  also have "{j. j \<noteq> i} \<inter> set xs = {0..<n} - {i}" using assms(2) by auto
  also have "card ({0..<n} - {i}) = n - 1" using assms(3) by simp
  finally show ?thesis .
qed

lemma length_ranking:
  assumes "argsort_ok (argsort lib)" "i < length fv" "1 \<le> top_n"
  shows "int (length (ranking lib meds fv i top_n True)) = min top_n (int (length fv) - 1)"
proof -
  let ?sims = "map (cosine_similarity lib (fv ! i)) fv"
  have "length (filter (\<lambda>j. j \<noteq> i) (rev (argsort lib ?sims))) = length fv - 1"
    using argsort_okD(1,2)[OF assms(1), of ?sims] assms(2)
    by (intro length_filter_other) simp_all
  then have "length (ranking lib meds fv i top_n True) = min (nat top_n) (length fv - 1)"
    using assms(3) by (simp add: ranking_def Let_def)
  then show ?thesis using assms(2,3) by (simp only:)
qed

lemma ranking_members:
  assumes "argsort_ok (argsort lib)" "(r, s) \<in> set (ranking lib meds fv i top_n True)"
  shows "\<exists>j<length fv. j \<noteq> i \<and> r = meds ! j"
proof -
  let ?sims = "map (cosine_similarity lib (fv ! i)) fv"
  from assms(2) have "(r, s) \<in> set (map (\<lambda>j. (meds ! j, ?sims ! j))
      (filter (\<lambda>j. j \<noteq> i) (rev (argsort lib ?sims))))"
    unfolding ranking_def Let_def by (auto dest: in_set_takeD)
  then obtain j where "j \<in> set (argsort lib ?sims)" "j \<noteq> i" "r = meds ! j" by auto
  then show ?thesis using argsort_okD(2)[OF assms(1), of ?sims] by auto
qed

lemma loaded_after_load: "loaded (after (load_database (Json d) st))"
  by (simp add: load_database_def loaded_def after_def Let_def)

lemma trained_run_load_train:
  assumes "meds \<noteq> []"
  shows "trained (run_load_train meds)"
proof -
  let ?st = "after (load_database (Json (Some meds)) (init ''medicines.json'')) :: (unit, string list) recommender"
  have ld: "loaded ?st" by (rule loaded_after_load)
  have "medicines ?st = meds" by (simp add: load_database_def after_def Let_def)
  then have "\<exists>out. train_model word_lib ?st = (Inr True, out, run_load_train meds)"
    using assms by (simp add: train_model_def run_load_train_def after_def Let_def word_lib_def
        build_vectorizer_def split: option.splits)
  then show ?thesis using trained_train_model[OF fit_ok_word_lib ld] by blast
qed

subsection \<open>States reached by loading and training\<close>

lemma trained_loaded: "trained st \<Longrightarrow> loaded st"
  by (simp add: trained_def)

lemma loaded_lookup_None:
  assumes "loaded st" "q \<notin> set (lower_names (medicines st))"
  shows "medicine_index_map st q = None"
  using assms index_map_from_notin[of q "medicines st" 0 Map.empty] by (simp add: loaded_def)

lemma loaded_lookup_Some:
  assumes "loaded st" "q \<in> set (lower_names (medicines st))"
  shows "\<exists>i<length (medicines st). medicine_index_map st q = Some i \<and>
           str_lower (name (medicines st ! i)) = q"
  using assms index_map_from_in[of q "medicines st" 0 Map.empty] by (simp add: loaded_def)

lemma untrained_init: "feature_vectors (init path) = None"
  by (simp add: init_def)

lemma untrained_load_database:
  "feature_vectors st = None \<Longrightarrow> feature_vectors (after (load_database file st)) = None"
  by (simp add: load_database_def after_def Let_def split: db_file.splits)

lemma untrained_failed_train:
  "feature_vectors st = None \<Longrightarrow> returned (train_model lib st) \<noteq> Inr True \<Longrightarrow>
     feature_vectors (after (train_model lib st)) = None"
  by (auto simp: train_model_def build_vectorizer_def after_def returned_def Let_def
      split: if_splits option.splits prod.splits sum.splits)

subsection \<open>Dot products and norms\<close>

lemma dot_Nil [simp]: "dot [] b = 0" "dot a [] = 0"
  by (simp_all add: dot_def)

lemma dot_Cons [simp]: "dot (x # a) (y # b) = x * y + dot a b"
  by (simp add: dot_def)







lemma dot_zero_left [simp]: "dot (replicate k 0) v = 0"
proof (induction k arbitrary: v)
  case 0
  then show ?case by simp
next
  case (Suc k)
  then show ?case by (cases v) simp_all
qed

lemma dot_zero_right [simp]: "dot v (replicate k 0) = 0"
proof (induction k arbitrary: v)
  case 0
  then show ?case by simp
next
  case (Suc k)
  then show ?case by (cases v) simp_all
qed

lemma l2_normalize_zero [simp]: "l2_normalize (replicate k 0) = replicate k 0"
  by (simp add: l2_normalize_def)




subsection \<open>Rounding\<close>

lemma fl_tenth: "fl (1 / 10) = 3602879701896397 / 36028797018963968"
  by code_simp

lemma fl_tie_down: "fl (1 + 1 / 2 ^ 53) = 1"
  by code_simp

lemma fl_tie_up: "fl (1 + 3 / 2 ^ 53) = 1 + 1 / 2 ^ 51"
  by code_simp

lemma fl_sqrt_two: "fl_sqrt 2 = 6369051672525773 / 4503599627370496"
  by code_simp







text \<open>A query in capitals, padded with a no-break space, finds the record by exact match.\<close>

lemma find_medicine_latin:
  "returned (find_medicine (run_load_train catalogue_latin) (CHR 0xA0 # CHR 0xC9 # ''CLAIR'')) =
     Inr (Some (catalogue_latin ! 0)) \<and>
   returned (find_medicine (run_load_train catalogue_latin) (CHR 0xC9 # ''THER'')) =
     Inr (Some (catalogue_latin ! 1))"
  by code_simp

section \<open>The claims\<close>

subsection \<open>Ranking order\<close>

text \<open>
  Claim C1, as far as the code goes: for a trained catalogue and a query name that
  \<^verbatim>\<open>find_medicine\<close> resolves, \<^verbatim>\<open>recommend_similar\<close> returns a list whose scores never
  increase from one entry to the next. Nothing orders entries of equal score: the list is the
  reverse of what \<open>argsort\<close> returns, and the run on \<open>catalogue3\<close> further down puts
  position 2 before position 1 at equal scores.
\<close>

theorem recommend_scores_descending:
  assumes "trained st" and "argsort_ok (argsort lib)"
    and "returned (find_medicine st nm) = Inr (Some m)"
  shows "\<exists>recs. recommend_similar lib st nm top_n ex = (Inr recs, [], st) \<and> descending recs"
proof -
  from recommend_trained[OF assms, of top_n ex] obtain fv i where
    "recommend_similar lib st nm top_n ex = (Inr (ranking lib (medicines st) fv i top_n ex), [], st)"
    by blast
  then show ?thesis using descending_ranking[OF assms(2)] by blast
qed

theorem recommend_scores_descending_witness:
  "trained (run_load_train catalogue3) \<and> argsort_ok (argsort word_lib) \<and>
   returned (find_medicine (run_load_train catalogue3) ''Aspirin'') = Inr (Some (catalogue3 ! 0)) \<and>
   (\<exists>recs. recommend_similar word_lib (run_load_train catalogue3) ''Aspirin'' 5 True =
        (Inr recs, [], run_load_train catalogue3) \<and> descending recs)"
proof -
  have t: "trained (run_load_train catalogue3)"
    by (rule trained_run_load_train) (simp add: catalogue3_def)
  have a: "argsort_ok (argsort word_lib)" by (simp add: word_lib_def argsort_ok_stable)
  have f: "returned (find_medicine (run_load_train catalogue3) ''Aspirin'') = Inr (Some (catalogue3 ! 0))"
    by code_simp
  show ?thesis using t a f recommend_scores_descending[OF t a f, of 5 True] by simp
qed

text \<open>
  The run for claim C1: the second and third record of \<open>catalogue3\<close> have the same feature
  text, hence the same score against the first; the stable ascending sort lists positions
  1, 2, 0, the reversal 0, 2, 1, and the result is position 2 followed by position 1.
\<close>

theorem recommend_tie_order_counterexample:
  "map (\<lambda>(m, s). (position catalogue3 m, s))
      (case returned (recommend_similar word_lib (run_load_train catalogue3) ''Aspirin'' 5 True) of
         Inr recs \<Rightarrow> recs | Inl e \<Rightarrow> []) = [(2, 2), (1, 2)]"
  by code_simp

subsection \<open>Loading an empty catalogue\<close>

text \<open>
  Claim C2, as the code has it: \<^verbatim>\<open>load_database\<close> on a document with no records (an empty
  list, or no \<^verbatim>\<open>medicines\<close> key) returns \<^verbatim>\<open>True\<close> and reports zero medicines loaded;
  the catalogue and the name index are empty afterwards. The empty catalogue is refused one
  step later, by \<^verbatim>\<open>train_model\<close>, which returns \<^verbatim>\<open>False\<close> and changes nothing.
\<close>

theorem load_empty_succeeds:
  "load_database (Json (Some [])) st =
     (True, [MsgLoaded 0], st\<lparr>medicines := [], medicine_index_map := Map.empty\<rparr>) \<and>
   load_database (Json None) st =
     (True, [MsgLoaded 0], st\<lparr>medicines := [], medicine_index_map := Map.empty\<rparr>) \<and>
   train_model lib (st\<lparr>medicines := [], medicine_index_map := Map.empty\<rparr>) =
     (Inr False, [MsgNoMedicines], st\<lparr>medicines := [], medicine_index_map := Map.empty\<rparr>)"
  by (simp add: load_database_def train_model_def Let_def)

text \<open>
  The run for claim C2: loading the empty list into a fresh recommender does not fail.
\<close>

theorem load_empty_counterexample:
  "load_database (Json (Some [])) (init ''medicines.json'' :: (unit, string list) recommender) =
     (True, [MsgLoaded 0], init ''medicines.json'')"
  by (simp add: load_database_def init_def Let_def)

subsection \<open>Recommending before training\<close>

text \<open>
  Claim C3, as the code has it: while \<^verbatim>\<open>feature_vectors\<close> is \<^verbatim>\<open>None\<close> (no call of
  \<^verbatim>\<open>train_model\<close> has returned \<^verbatim>\<open>True\<close>), \<^verbatim>\<open>recommend_similar\<close> prints the
  not-trained message and returns the empty list to its caller; the object is unchanged.
\<close>

theorem recommend_untrained:
  assumes "feature_vectors st = None"
  shows "recommend_similar lib st nm top_n ex = (Inr [], [MsgNotTrained], st)"
  using assms by (simp add: recommend_similar_def)

theorem recommend_untrained_witness:
  "feature_vectors (after (load_database (Json (Some catalogue3))
       (init ''medicines.json'' :: (unit, string list) recommender))) = None \<and>
   recommend_similar word_lib (after (load_database (Json (Some catalogue3)) (init ''medicines.json'')))
       ''Aspirin'' 5 True =
     (Inr [], [MsgNotTrained], after (load_database (Json (Some catalogue3)) (init ''medicines.json'')))"
proof -
  have h: "feature_vectors (after (load_database (Json (Some catalogue3))
       (init ''medicines.json'' :: (unit, string list) recommender))) = None"
    by (simp add: load_database_def after_def init_def Let_def)
  show ?thesis using h recommend_untrained[OF h, of word_lib "''Aspirin''" 5 True] by simp
qed

text \<open>
  The run for claim C3: the caller of an untrained recommender receives the empty list, the
  very value it receives from a trained one for a name that resolves to nothing.
\<close>

theorem recommend_untrained_counterexample:
  "returned (recommend_similar word_lib
      (after (load_database (Json (Some catalogue3)) (init ''medicines.json'')))
      ''Aspirin'' 5 True) = Inr [] \<and>
   returned (recommend_similar word_lib (run_load_train catalogue3) ''Paracetamol'' 5 True) = Inr []"
  by code_simp

subsection \<open>Excluding the query record\<close>

text \<open>
  Claim C4, for catalogues whose lowercased names are pairwise distinct: for a trained
  catalogue, a query name that resolves to a record and any \<open>top_n\<close>,
  \<^verbatim>\<open>recommend_similar\<close> with \<^verbatim>\<open>exclude_self=True\<close> returns a list in which the resolved
  record does not occur.
\<close>

theorem recommend_excludes_self:
  assumes "trained st" and "argsort_ok (argsort lib)"
    and "returned (find_medicine st nm) = Inr (Some m)"
    and "distinct (lower_names (medicines st))"
  shows "\<exists>recs. recommend_similar lib st nm top_n True = (Inr recs, [], st) \<and>
           m \<notin> fst ` set recs"
proof -
  from recommend_trained[OF assms(1-3), of top_n True] obtain fv i where
    fv: "length fv = length (medicines st)" and i: "i < length (medicines st)"
    and nm: "str_lower (name (medicines st ! i)) = str_lower (name m)"
    and r: "recommend_similar lib st nm top_n True =
        (Inr (ranking lib (medicines st) fv i top_n True), [], st)"
    by blast
  have "m \<notin> fst ` set (ranking lib (medicines st) fv i top_n True)"
  proof
    assume "m \<in> fst ` set (ranking lib (medicines st) fv i top_n True)"
    then obtain s where "(m, s) \<in> set (ranking lib (medicines st) fv i top_n True)" by auto
    from ranking_members[OF assms(2) this] obtain j where
      j: "j < length fv" "j \<noteq> i" "m = medicines st ! j" by blast
    have "lower_names (medicines st) ! j = lower_names (medicines st) ! i"
      using j i fv nm by (simp add: lower_names_def)
    moreover have "j < length (lower_names (medicines st))" "i < length (lower_names (medicines st))"
      using j(1) i fv by (simp_all add: lower_names_def)
    ultimately have "j = i" using assms(4) by (simp add: nth_eq_iff_index_eq)
    with j(2) show False by simp
  qed
  with r show ?thesis by blast
qed

theorem recommend_excludes_self_witness:
  "trained (run_load_train catalogue3) \<and> argsort_ok (argsort word_lib) \<and>
   returned (find_medicine (run_load_train catalogue3) ''spir'') = Inr (Some (catalogue3 ! 0)) \<and>
   distinct (lower_names (medicines (run_load_train catalogue3))) \<and>
   (\<exists>recs. recommend_similar word_lib (run_load_train catalogue3) ''spir'' 7 True =
        (Inr recs, [], run_load_train catalogue3) \<and> catalogue3 ! 0 \<notin> fst ` set recs)"
proof -
  have t: "trained (run_load_train catalogue3)"
    by (rule trained_run_load_train) (simp add: catalogue3_def)
  have a: "argsort_ok (argsort word_lib)" by (simp add: word_lib_def argsort_ok_stable)
  have f: "returned (find_medicine (run_load_train catalogue3) ''spir'') = Inr (Some (catalogue3 ! 0))"
    by code_simp
  have d: "distinct (lower_names (medicines (run_load_train catalogue3)))"
    by code_simp
  show ?thesis using t a f d recommend_excludes_self[OF t a f d, of 7] by simp
qed

text \<open>
  The run for claim C4: in \<open>catalogue_dup\<close> both names lowercase to the same key, which the
  name index maps to position 1. The query \<^verbatim>\<open>spir\<close> resolves by substring to the record at
  position 0; position 1 is the one skipped, and the resolved record is returned.
\<close>

theorem recommend_self_included_counterexample:
  "returned (find_medicine (run_load_train catalogue_dup) ''spir'') = Inr (Some (catalogue_dup ! 0)) \<and>
   map_sum id (map fst)
     (returned (recommend_similar word_lib (run_load_train catalogue_dup) ''spir'' 5 True)) =
     Inr [catalogue_dup ! 0]"
  by code_simp

subsection \<open>Number of results\<close>

text \<open>
  Claim C5: for a trained catalogue of \<open>M\<close> records, a query name that resolves and
  \<open>top_n \<ge> 1\<close>, \<^verbatim>\<open>recommend_similar\<close> with \<^verbatim>\<open>exclude_self=True\<close> returns at most
  \<open>top_n\<close> entries, and exactly \<open>min top_n (M - 1)\<close>.
\<close>

theorem recommend_length:
  assumes "trained st" and "argsort_ok (argsort lib)"
    and "returned (find_medicine st nm) = Inr (Some m)"
    and "1 \<le> top_n"
  shows "\<exists>recs. recommend_similar lib st nm top_n True = (Inr recs, [], st) \<and>
           int (length recs) \<le> top_n \<and>
           int (length recs) = min top_n (int (length (medicines st)) - 1)"
proof -
  from recommend_trained[OF assms(1-3), of top_n True] obtain fv i where
    fv: "length fv = length (medicines st)" and i: "i < length (medicines st)"
    and r: "recommend_similar lib st nm top_n True =
        (Inr (ranking lib (medicines st) fv i top_n True), [], st)"
    by blast
  have "int (length (ranking lib (medicines st) fv i top_n True)) =
      min top_n (int (length (medicines st)) - 1)"
    using length_ranking[OF assms(2) _ assms(4), of i fv "medicines st"] i fv by simp
  with r show ?thesis by auto
qed

theorem recommend_length_witness:
  "trained (run_load_train catalogue3) \<and> argsort_ok (argsort word_lib) \<and>
   returned (find_medicine (run_load_train catalogue3) ''Aspirin'') = Inr (Some (catalogue3 ! 0)) \<and>
   (1::int) \<le> 7 \<and>
   (\<exists>recs. recommend_similar word_lib (run_load_train catalogue3) ''Aspirin'' 7 True =
        (Inr recs, [], run_load_train catalogue3) \<and> int (length recs) \<le> 7 \<and>
        int (length recs) = min 7 (int (length (medicines (run_load_train catalogue3))) - 1))"
proof -
  have t: "trained (run_load_train catalogue3)"
    by (rule trained_run_load_train) (simp add: catalogue3_def)
  have a: "argsort_ok (argsort word_lib)" by (simp add: word_lib_def argsort_ok_stable)
  have f: "returned (find_medicine (run_load_train catalogue3) ''Aspirin'') = Inr (Some (catalogue3 ! 0))"
    by code_simp
  have n: "(1::int) \<le> 7" by simp
  show ?thesis using t a f recommend_length[OF t a f n] by simp
qed

subsection \<open>Looking a name up\<close>

text \<open>
  Claim C6: on a loaded catalogue, with \<open>q\<close> the lowercased and stripped query,
  \<^verbatim>\<open>find_medicine\<close> returns a record whose lowercased name is \<open>q\<close> when there is one;
  when there is none, it returns the first record in catalogue order whose lowercased name
  contains \<open>q\<close>; when no name contains \<open>q\<close> either, it returns \<^verbatim>\<open>None\<close>.
\<close>

theorem find_medicine_two_tier:
  fixes st :: "('vz, 'v) recommender" and nm :: string
  assumes "loaded st"
  defines "q \<equiv> str_strip (str_lower nm)"
  shows "(q \<in> set (lower_names (medicines st)) \<longrightarrow>
            (\<exists>m\<in>set (medicines st). str_lower (name m) = q \<and>
               find_medicine st nm = (Inr (Some m), [], st))) \<and>
         (q \<notin> set (lower_names (medicines st)) \<and>
            (\<exists>m\<in>set (medicines st). str_in q (str_lower (name m))) \<longrightarrow>
            (\<exists>i<length (medicines st).
               find_medicine st nm = (Inr (Some (medicines st ! i)), [], st) \<and>
               str_in q (str_lower (name (medicines st ! i))) \<and>
               (\<forall>j<i. \<not> str_in q (str_lower (name (medicines st ! j)))))) \<and>
         (q \<notin> set (lower_names (medicines st)) \<and>
            \<not> (\<exists>m\<in>set (medicines st). str_in q (str_lower (name m))) \<longrightarrow>
            find_medicine st nm = (Inr None, [], st))"
proof (intro conjI impI)
  assume "q \<in> set (lower_names (medicines st))"
  from loaded_lookup_Some[OF assms(1) this] obtain i where
    i: "i < length (medicines st)" "medicine_index_map st q = Some i"
       "str_lower (name (medicines st ! i)) = q" by blast
  then have "find_medicine st nm = (Inr (Some (medicines st ! i)), [], st)"
    by (simp add: find_medicine_def q_def Let_def)
  with i show "\<exists>m\<in>set (medicines st). str_lower (name m) = q \<and>
               find_medicine st nm = (Inr (Some m), [], st)"
    using nth_mem by blast
next
  assume a: "q \<notin> set (lower_names (medicines st)) \<and>
            (\<exists>m\<in>set (medicines st). str_in q (str_lower (name m)))"
  then have none: "medicine_index_map st q = None"
    using loaded_lookup_None[OF assms(1)] by blast
  from a have "fuzzy_search q (medicines st) \<noteq> None" by (simp add: fuzzy_search_None)
  then obtain m where m: "fuzzy_search q (medicines st) = Some m" by auto
  from fuzzy_search_Some[OF m] obtain i where i: "i < length (medicines st)"
    "medicines st ! i = m" "str_in q (str_lower (name m))"
    "\<forall>j<i. \<not> str_in q (str_lower (name (medicines st ! j)))" by blast
  have "find_medicine st nm = (Inr (Some (medicines st ! i)), [], st)"
    using none m i(2) by (simp add: find_medicine_def q_def[symmetric] Let_def)
  with i show "\<exists>i<length (medicines st).
               find_medicine st nm = (Inr (Some (medicines st ! i)), [], st) \<and>
               str_in q (str_lower (name (medicines st ! i))) \<and>
               (\<forall>j<i. \<not> str_in q (str_lower (name (medicines st ! j))))" by blast
next
  assume a: "q \<notin> set (lower_names (medicines st)) \<and>
            \<not> (\<exists>m\<in>set (medicines st). str_in q (str_lower (name m)))"
  then have none: "medicine_index_map st q = None"
    using loaded_lookup_None[OF assms(1)] by blast
  from a have "fuzzy_search q (medicines st) = None" by (simp add: fuzzy_search_None)
  then show "find_medicine st nm = (Inr None, [], st)"
    using none by (simp add: find_medicine_def q_def[symmetric] Let_def)
qed

theorem find_medicine_two_tier_witness:
  "loaded (run_load_train catalogue3) \<and>
   (str_strip (str_lower ''  ASPIRIN '') \<in> set (lower_names (medicines (run_load_train catalogue3))) \<and>
    (\<exists>m\<in>set (medicines (run_load_train catalogue3)).
        str_lower (name m) = str_strip (str_lower ''  ASPIRIN '') \<and>
        find_medicine (run_load_train catalogue3) ''  ASPIRIN '' =
          (Inr (Some m), [], run_load_train catalogue3))) \<and>
   (str_strip (str_lower ''Pro'') \<notin> set (lower_names (medicines (run_load_train catalogue3))) \<and>
    (\<exists>m\<in>set (medicines (run_load_train catalogue3)).
        str_in (str_strip (str_lower ''Pro'')) (str_lower (name m))) \<and>
    (\<exists>i<length (medicines (run_load_train catalogue3)).
        find_medicine (run_load_train catalogue3) ''Pro'' =
          (Inr (Some (medicines (run_load_train catalogue3) ! i)), [], run_load_train catalogue3) \<and>
        str_in (str_strip (str_lower ''Pro''))
          (str_lower (name (medicines (run_load_train catalogue3) ! i))) \<and>
        (\<forall>j<i. \<not> str_in (str_strip (str_lower ''Pro''))
          (str_lower (name (medicines (run_load_train catalogue3) ! j)))))) \<and>
   (str_strip (str_lower ''Paracetamol'') \<notin> set (lower_names (medicines (run_load_train catalogue3))) \<and>
    \<not> (\<exists>m\<in>set (medicines (run_load_train catalogue3)).
        str_in (str_strip (str_lower ''Paracetamol'')) (str_lower (name m))) \<and>
    find_medicine (run_load_train catalogue3) ''Paracetamol'' =
      (Inr None, [], run_load_train catalogue3))"
proof -
  have ld: "loaded (run_load_train catalogue3)"
    by (rule trained_loaded, rule trained_run_load_train) (simp add: catalogue3_def)
  have h1: "str_strip (str_lower ''  ASPIRIN '') \<in> set (lower_names (medicines (run_load_train catalogue3)))"
    by code_simp
  have h2: "str_strip (str_lower ''Pro'') \<notin> set (lower_names (medicines (run_load_train catalogue3))) \<and>
    (\<exists>m\<in>set (medicines (run_load_train catalogue3)).
        str_in (str_strip (str_lower ''Pro'')) (str_lower (name m)))"
    by code_simp
  have h3: "str_strip (str_lower ''Paracetamol'') \<notin> set (lower_names (medicines (run_load_train catalogue3))) \<and>
    \<not> (\<exists>m\<in>set (medicines (run_load_train catalogue3)).
        str_in (str_strip (str_lower ''Paracetamol'')) (str_lower (name m)))"
    by code_simp
  show ?thesis
    using ld h1 h2 h3
      find_medicine_two_tier[OF ld, of "''  ASPIRIN ''"]
      find_medicine_two_tier[OF ld, of "''Pro''"]
      find_medicine_two_tier[OF ld, of "''Paracetamol''"]
    by blast
qed

text \<open>
  Claim C9: on a loaded, non-empty catalogue whose names are non-empty, \<^verbatim>\<open>find_medicine\<close>
  applied to the empty string or to a string of whitespace only returns the first record of
  the catalogue.
\<close>

theorem find_medicine_blank:
  assumes "loaded st" and "medicines st \<noteq> []"
    and "\<forall>m\<in>set (medicines st). name m \<noteq> []"
    and "\<forall>c\<in>set nm. is_space c"
  shows "find_medicine st nm = (Inr (Some (hd (medicines st))), [], st)"
proof -
  have q: "str_strip (str_lower nm) = []" using assms(4) by (rule strip_lower_blank)
  have "[] \<notin> set (lower_names (medicines st))"
    using assms(3) by (auto simp: lower_names_def str_lower_def)
  then have none: "medicine_index_map st [] = None"
    by (rule loaded_lookup_None[OF assms(1)])
  obtain x xs where xs: "medicines st = x # xs" using assms(2) by (cases "medicines st") auto
  then have "fuzzy_search [] (medicines st) = Some x" by (simp add: str_in_empty)
  then show ?thesis using none q xs by (simp add: find_medicine_def Let_def)
qed

theorem find_medicine_blank_witness:
  "loaded (run_load_train catalogue3) \<and> medicines (run_load_train catalogue3) \<noteq> [] \<and>
   list_all (\<lambda>m. name m \<noteq> []) (medicines (run_load_train catalogue3)) \<and>
   list_all is_space [CHR 0x20, CHR 0xA0, CHR 0x85] \<and>
   find_medicine (run_load_train catalogue3) [CHR 0x20, CHR 0xA0, CHR 0x85] =
     (Inr (Some (hd (medicines (run_load_train catalogue3)))), [], run_load_train catalogue3) \<and>
   find_medicine (run_load_train catalogue3) [] =
     (Inr (Some (hd (medicines (run_load_train catalogue3)))), [], run_load_train catalogue3)"
proof -
  have ld: "loaded (run_load_train catalogue3)"
    by (rule trained_loaded, rule trained_run_load_train) (simp add: catalogue3_def)
  have ne: "medicines (run_load_train catalogue3) \<noteq> []" by code_simp
  have nm: "\<forall>m\<in>set (medicines (run_load_train catalogue3)). name m \<noteq> []" by code_simp
  have sp: "\<forall>c\<in>set [CHR 0x20, CHR 0xA0, CHR 0x85]. is_space c" by code_simp
  have em: "\<forall>c\<in>set []. is_space c" by simp
  show ?thesis
    using ld ne nm sp find_medicine_blank[OF ld ne nm sp] find_medicine_blank[OF ld ne nm em]
    by (simp add: list_all_iff)
qed

subsection \<open>Queries leave the object alone\<close>

text \<open>
  Claim C10: \<^verbatim>\<open>find_medicine\<close> and \<^verbatim>\<open>recommend_similar\<close> return the object as they found
  it, whatever the arguments and whether they return a value or raise: catalogue, name index,
  vectorizer and feature vectors are the same before and after.
\<close>

theorem queries_preserve_state:
  "after (find_medicine st nm) = st \<and> after (recommend_similar lib st nm top_n ex) = st"
proof
  show fm: "after (find_medicine st nm) = st" by (rule find_medicine_state(1))
  obtain r out st1 where f: "find_medicine st nm = (r, out, st1)"
    by (cases "find_medicine st nm") auto
  then have "st1 = st" using fm by (simp add: after_def)
  then show "after (recommend_similar lib st nm top_n ex) = st"
    using f by (simp add: recommend_similar_def after_def Let_def
        split: option.splits sum.splits)
qed

subsection \<open>Range of the scores\<close>




end
